theory Spec2Isabelle
  imports Complex_Main "HOL-Library.AList" "HOL-Library.List_Lexorder" "HOL-Library.Char_ord"
begin

section \<open>Python values shared by the three scripts\<close>

text \<open>
  A Python \<open>dict\<close> is an association list in insertion order: \<open>map_of d k\<close> is the lookup,
  \<open>AList.update k v d\<close> is \<open>d[k] = v\<close> (an existing key keeps its place, a new key goes to
  the end), \<open>length d\<close> is \<open>len(d)\<close> and \<open>map snd d\<close> is \<open>d.values()\<close>. The keys of a
  Python dict are pairwise different, which is \<open>distinct (map fst d)\<close>.
  Floating-point numbers are modelled as reals: rounding, infinities and NaN are left out.
\<close>

type_synonym ('k, 'v) dict = "('k \<times> 'v) list"

type_synonym tensor = "real list list"

datatype py_exn =
    FileNotFoundError
  | KeyError
  | ValueError
  | ZeroDivisionError
  | IndexError
  | TypeError
  | RuntimeError
  | AttributeError

text \<open>\<open>xs[:k]\<close>: a negative \<open>k\<close> counts from the end.\<close>

definition py_slice_to :: "int \<Rightarrow> 'a list \<Rightarrow> 'a list" where
  "py_slice_to k xs =
     (if 0 \<le> k then take (nat k) xs else take (nat (int (length xs) + k)) xs)"

text \<open>\<open>max(values)\<close> raises \<open>ValueError\<close> on an empty sequence.\<close>

fun py_max :: "int list \<Rightarrow> py_exn + int" where
  "py_max [] = Inl ValueError"
| "py_max (x # xs) = Inr (fold max xs x)"

text \<open>\<open>a % b\<close> on Python integers: the sign follows the divisor, as HOL's \<open>mod\<close> on \<open>int\<close>.\<close>

definition py_mod :: "int \<Rightarrow> int \<Rightarrow> py_exn + int" where
  "py_mod a b = (if b = 0 then Inl ZeroDivisionError else Inr (a mod b))"

section \<open>app.py: the embedding model\<close>

text \<open>
  \<open>ImprovedLightGCN\<close>, with the fields inference reads. \<open>reg_lambda\<close> and \<open>dropout\<close> are
  stored by the constructor and never read again; they are left out.
\<close>

record lightgcn =
  num_users :: nat
  num_items :: nat
  embedding_dim :: nat
  n_layers :: nat
  use_layer_attention :: bool
  user_embedding :: tensor
  item_embedding :: tensor
  layer_attention :: "real list option"
  Graph :: "tensor option"
  cached_users :: "tensor option"
  cached_items :: "tensor option"
  cache_valid :: bool

definition width :: "tensor \<Rightarrow> nat" where
  "width X = (case X of [] \<Rightarrow> 0 | r # _ \<Rightarrow> length r)"

text \<open>\<open>torch.sparse.mm(G, X)\<close>: the columns of \<open>G\<close> must be as many as the rows of \<open>X\<close>.\<close>

definition sparse_mm :: "tensor \<Rightarrow> tensor \<Rightarrow> py_exn + tensor" where
  "sparse_mm G X =
     (if \<forall>row \<in> set G. length row = length X
      then Inr (map (\<lambda>row. map (\<lambda>c. sum_list (map2 (\<lambda>g x. g * x ! c) row X)) [0..<width X]) G)
      else Inl RuntimeError)"

text \<open>The loop \<open>for layer in range(self.n_layers)\<close>: it returns \<open>embs\<close>, layer 0 first.\<close>

fun propagate :: "nat \<Rightarrow> tensor \<Rightarrow> tensor \<Rightarrow> py_exn + tensor list" where
  "propagate 0 G all_emb = Inr [all_emb]"
| "propagate (Suc n) G all_emb =
     (case sparse_mm G all_emb of
        Inl e \<Rightarrow> Inl e
      | Inr nxt \<Rightarrow>
          (case propagate n G nxt of
             Inl e \<Rightarrow> Inl e
           | Inr embs \<Rightarrow> Inr (all_emb # embs)))"

text \<open>\<open>torch.stack(embs, dim=1)\<close> needs layers of one shape.\<close>

definition stackable :: "tensor list \<Rightarrow> bool" where
  "stackable embs = (\<forall>E \<in> set embs. length E = length (hd embs))"

definition softmax :: "real list \<Rightarrow> real list" where
  "softmax ws = map (\<lambda>w. exp w / sum_list (map exp ws)) ws"

text \<open>\<open>torch.sum(embs * attention.view(1, -1, 1), dim=1)\<close>\<close>

definition attention_sum :: "real list \<Rightarrow> tensor list \<Rightarrow> tensor" where
  "attention_sum attention embs =
     map (\<lambda>e. map (\<lambda>c. sum_list (map2 (\<lambda>a E. E ! e ! c * a) attention embs))
                [0..<width (hd embs)])
         [0..<length (hd embs)]"

text \<open>\<open>torch.mean(embs, dim=1)\<close>\<close>

definition layer_mean :: "tensor list \<Rightarrow> tensor" where
  "layer_mean embs =
     map (\<lambda>e. map (\<lambda>c. sum_list (map (\<lambda>E. E ! e ! c) embs) / real (length embs))
                [0..<width (hd embs)])
         [0..<length (hd embs)]"

text \<open>\<open>torch.split(final_emb, [num_users, num_items])\<close>: the sizes must add up to the rows.\<close>

definition split_emb :: "nat \<Rightarrow> nat \<Rightarrow> tensor \<Rightarrow> py_exn + (tensor \<times> tensor)" where
  "split_emb nu ni final_emb =
     (if nu + ni = length final_emb
      then Inr (take nu final_emb, drop nu final_emb)
      else Inl RuntimeError)"

definition computer :: "lightgcn \<Rightarrow> py_exn + (tensor \<times> tensor)" where
  "computer m =
     (case Graph m of
        None \<Rightarrow> Inr (user_embedding m, item_embedding m)
      | Some G \<Rightarrow>
          (case propagate (n_layers m) G (user_embedding m @ item_embedding m) of
             Inl e \<Rightarrow> Inl e
           | Inr embs \<Rightarrow>
               if \<not> stackable embs then Inl RuntimeError
               else if use_layer_attention m then
                 (case layer_attention m of
                    None \<Rightarrow> Inl AttributeError
                  | Some la \<Rightarrow>
                      if length la = length embs
                      then split_emb (num_users m) (num_items m)
                             (attention_sum (softmax la) embs)
                      else Inl RuntimeError)
               else split_emb (num_users m) (num_items m) (layer_mean embs)))"


section \<open>app.py: the serving state and the recommend operation\<close>

text \<open>
  The module globals \<open>user_mapping\<close>, \<open>movie_mapping\<close>, \<open>reverse_movie_mapping\<close> and
  \<open>model\<close>. The three dictionaries are also what the maintenance tool keeps in the
  mapping file, so the serving state extends that record by the model. The global
  \<open>model\<close> holds whatever \<open>load_model\<close> assigned to it: a model, or an object of
  another kind (a bare state dict, for instance), which has no \<open>eval\<close>.
\<close>

datatype model_object = Model lightgcn | Not_a_model

record mappings =
  user_mapping :: "(string, int) dict"
  movie_mapping :: "(string, int) dict"
  reverse_movie_mapping :: "(int, string) dict"

record app_state = mappings +
  model :: "model_object option"

record RecommendationRequest =
  req_user_id :: string
  top_k :: int

record recommendation =
  movieId :: string
  score :: real

record RecommendationResponse =
  user_id :: string
  recommendations :: "recommendation list"

datatype detail =
    Model_not_loaded
  | Error_generating_recommendations py_exn
  | Error_reloading_model py_exn

datatype http_error = HTTPException nat detail

text \<open>
  \<open>get_popular_movies\<close>: the parameter is not used, the identifier of the response is the
  literal \<open>"unknown"\<close>.
\<close>

definition get_popular_movies :: "int \<Rightarrow> RecommendationResponse" where
  "get_popular_movies k = \<lparr>user_id = ''unknown'', recommendations = []\<rparr>"

text \<open>
  \<open>if not model._cache_valid: model.cached_users, model.cached_items = model.computer();
  model._cache_valid = True\<close>. When \<open>computer\<close> raises, nothing has been assigned.
\<close>

definition ensure_cache :: "lightgcn \<Rightarrow> py_exn + lightgcn" where
  "ensure_cache m =
     (if cache_valid m then Inr m
      else (case computer m of
              Inl e \<Rightarrow> Inl e
            | Inr (users, items) \<Rightarrow>
                Inr (m\<lparr>cached_users := Some users, cached_items := Some items,
                       cache_valid := True\<rparr>)))"

text \<open>
  \<open>model.cached_users[user_idx]\<close>: indexing \<open>None\<close> is a \<open>TypeError\<close>; a tensor accepts
  indices from \<open>-n\<close> to \<open>n - 1\<close>, negative ones counting from the end.
\<close>

definition tensor_row :: "tensor option \<Rightarrow> int \<Rightarrow> py_exn + real list" where
  "tensor_row t i =
     (case t of
        None \<Rightarrow> Inl TypeError
      | Some rows \<Rightarrow>
          (let n = int (length rows); j = (if i < 0 then n + i else i)
           in if 0 \<le> j \<and> j < n then Inr (rows ! nat j) else Inl IndexError))"

text \<open>\<open>torch.matmul(user_emb, all_item_embs.T)\<close>: one inner product per item row.\<close>

definition matmul :: "real list \<Rightarrow> tensor option \<Rightarrow> py_exn + real list" where
  "matmul user_emb t =
     (case t of
        None \<Rightarrow> Inl AttributeError
      | Some items \<Rightarrow>
          if \<forall>row \<in> set items. length row = length user_emb
          then Inr (map (\<lambda>row. sum_list (map2 (*) user_emb row)) items)
          else Inl RuntimeError)"

text \<open>
  \<open>np.argsort\<close> is NumPy's. Its contract: the result lists every index of the array
  once, and the scores read in that order do not decrease. The order it gives to equal
  scores is not part of the contract (the default kind is not a stable sort), so the
  operations below take the function \<open>argsort\<close> as a parameter.
\<close>

definition is_argsort :: "real list \<Rightarrow> nat list \<Rightarrow> bool" where
  "is_argsort scores perm =
     (distinct perm \<and> set perm = {0..<length scores} \<and> sorted (map (\<lambda>i. scores ! i) perm))"

text \<open>One function with that contract: the stable sort of the indices by score.\<close>

definition stable_argsort :: "real list \<Rightarrow> nat list" where
  "stable_argsort scores = sort_key (\<lambda>i. scores ! i) [0..<length scores]"

text \<open>\<open>np.argsort(scores)[::-1][:top_k]\<close>\<close>

definition top_indices :: "(real list \<Rightarrow> nat list) \<Rightarrow> real list \<Rightarrow> int \<Rightarrow> nat list" where
  "top_indices argsort scores k = py_slice_to k (rev (argsort scores))"

text \<open>
  The loop over \<open>top_indices\<close>: \<open>reverse_movie_mapping.get(int(idx))\<close>, and
  \<open>if movie_id:\<close> drops \<open>None\<close> and the empty string.
\<close>

fun collect :: "(int, string) dict \<Rightarrow> real list \<Rightarrow> nat list \<Rightarrow> recommendation list" where
  "collect rm scores [] = []"
| "collect rm scores (idx # rest) =
     (case map_of rm (int idx) of
        None \<Rightarrow> collect rm scores rest
      | Some movie_id \<Rightarrow>
          if movie_id = [] then collect rm scores rest
          else \<lparr>movieId = movie_id, score = scores ! idx\<rparr> # collect rm scores rest)"

text \<open>Lines 238 to 252: from the user's vector and the item table to the list.\<close>

definition scorer ::
  "(real list \<Rightarrow> nat list) \<Rightarrow> (int, string) dict \<Rightarrow> real list \<Rightarrow> tensor option \<Rightarrow> int
     \<Rightarrow> py_exn + recommendation list" where
  "scorer argsort rm user_emb all_item_embs k =
     (case matmul user_emb all_item_embs of
        Inl e \<Rightarrow> Inl e
      | Inr scores \<Rightarrow> Inr (collect rm scores (top_indices argsort scores k)))"

text \<open>
  \<open>get_recommendations\<close> returns the response or the \<open>HTTPException\<close>, and the state,
  whose model may have had its cache filled. Every exception of the \<open>try\<close> block becomes
  status 500; the first statement that can raise there, after the lookup of the user, is
  \<open>model.eval()\<close> on an object that is no model.
\<close>

definition get_recommendations ::
  "(real list \<Rightarrow> nat list) \<Rightarrow> app_state \<Rightarrow> RecommendationRequest
     \<Rightarrow> (http_error + RecommendationResponse) \<times> app_state" where
  "get_recommendations argsort st request =
     (case model st of
        None \<Rightarrow> (Inl (HTTPException 500 Model_not_loaded), st)
      | Some obj \<Rightarrow>
          (case map_of (user_mapping st) (req_user_id request) of
             None \<Rightarrow> (Inr (get_popular_movies (top_k request)), st)
           | Some user_idx \<Rightarrow>
               (case obj of
                  Not_a_model \<Rightarrow>
                    (Inl (HTTPException 500 (Error_generating_recommendations AttributeError)),
                     st)
                | Model m \<Rightarrow>
                    (case ensure_cache m of
                       Inl e \<Rightarrow>
                         (Inl (HTTPException 500 (Error_generating_recommendations e)), st)
                     | Inr m' \<Rightarrow>
                         (let st' = st\<lparr>model := Some (Model m')\<rparr> in
                          case tensor_row (cached_users m') user_idx of
                            Inl e \<Rightarrow>
                              (Inl (HTTPException 500 (Error_generating_recommendations e)),
                               st')
                          | Inr user_emb \<Rightarrow>
                              (case scorer argsort (reverse_movie_mapping st) user_emb
                                      (cached_items m') (top_k request) of
                                 Inl e \<Rightarrow>
                                   (Inl (HTTPException 500
                                           (Error_generating_recommendations e)),
                                    st')
                               | Inr recs \<Rightarrow>
                                   (Inr \<lparr>user_id = req_user_id request,
                                         recommendations = recs\<rparr>,
                                    st')))))))"

section \<open>app.py: loading and reloading\<close>














section \<open>manage_mapping.py\<close>

text \<open>
  The mapping file and its backup; \<open>None\<close> is a file that does not exist. What the tool
  prints is returned as a list of messages.
\<close>

record store =
  mapping_file :: "mappings option"
  backup_file :: "mappings option"

datatype msg =
    Warn_exists string int
  | Warn_index int int
  | Saved
  | Added string int
  | Skipped string

definition load_mappings :: "store \<Rightarrow> py_exn + mappings" where
  "load_mappings st =
     (case mapping_file st of None \<Rightarrow> Inl FileNotFoundError | Some m \<Rightarrow> Inr m)"

definition save_mappings :: "mappings \<Rightarrow> store \<Rightarrow> store \<times> msg list" where
  "save_mappings m st =
     (st\<lparr>backup_file := (case mapping_file st of None \<Rightarrow> backup_file st | Some old \<Rightarrow> Some old),
         mapping_file := Some m\<rparr>,
      [Saved])"

definition add_user :: "string \<Rightarrow> int \<Rightarrow> store \<Rightarrow> py_exn + (store \<times> msg list)" where
  "add_user mongo_id user_index st =
     (case load_mappings st of
        Inl e \<Rightarrow> Inl e
      | Inr m \<Rightarrow>
          (case map_of (user_mapping m) mongo_id of
             Some i \<Rightarrow> Inr (st, [Warn_exists mongo_id i])
           | None \<Rightarrow>
               (case py_max (map snd (user_mapping m)) of
                  Inl e \<Rightarrow> Inl e
                | Inr max_index \<Rightarrow>
                    (let (idx, out) =
                           (if user_index > max_index
                            then (max_index, [Warn_index user_index max_index])
                            else (user_index, []));
                         (st', out') =
                           save_mappings
                             (m\<lparr>user_mapping := AList.update mongo_id idx (user_mapping m)\<rparr>) st
                     in Inr (st', out @ out' @ [Added mongo_id idx])))))"

text \<open>
  The loop of \<open>add_bulk\<close> over \<open>enumerate(mongo_ids)\<close>, on the dictionary in memory.
  \<open>len(mappings['user_mapping'])\<close> is read again at every insertion.
\<close>

fun add_bulk_loop ::
  "int \<Rightarrow> (nat \<times> string) list \<Rightarrow> (string, int) dict \<Rightarrow> msg list
     \<Rightarrow> py_exn + ((string, int) dict \<times> msg list)" where
  "add_bulk_loop start_index [] um out = Inr (um, out)"
| "add_bulk_loop start_index ((i, mongo_id) # rest) um out =
     (if map_of um mongo_id = None then
        (case py_mod (start_index + int i) (int (length um)) of
           Inl e \<Rightarrow> Inl e
         | Inr idx \<Rightarrow>
             add_bulk_loop start_index rest (AList.update mongo_id idx um)
               (out @ [Added mongo_id idx]))
      else add_bulk_loop start_index rest um (out @ [Skipped mongo_id]))"

definition add_bulk :: "string list \<Rightarrow> int \<Rightarrow> store \<Rightarrow> py_exn + (store \<times> msg list)" where
  "add_bulk mongo_ids start_index st =
     (case load_mappings st of
        Inl e \<Rightarrow> Inl e
      | Inr m \<Rightarrow>
          (case add_bulk_loop start_index (enumerate 0 mongo_ids) (user_mapping m) [] of
             Inl e \<Rightarrow> Inl e
           | Inr (um, out) \<Rightarrow>
               (let (st', out') = save_mappings (m\<lparr>user_mapping := um\<rparr>) st
                in Inr (st', out @ out'))))"

section \<open>generate_mapping.py\<close>

text \<open>
  \<open>unique_users\<close> and \<open>unique_movies\<close> are what the two \<open>distinct\<close> queries return;
  \<open>py_str\<close> is Python's \<open>str\<close> on the identifiers of the database. The two loops run
  over \<open>enumerate(sorted(..., key=str))\<close> and store \<open>str\<close> of each identifier. The
  mappings are written to the mapping file, with no backup.
\<close>

fun user_loop :: "(nat \<times> string) list \<Rightarrow> (string, int) dict \<Rightarrow> (string, int) dict" where
  "user_loop [] um = um"
| "user_loop ((idx, uid) # rest) um = user_loop rest (AList.update uid (int idx) um)"

fun movie_loop ::
  "(nat \<times> string) list \<Rightarrow> (string, int) dict \<Rightarrow> (int, string) dict
     \<Rightarrow> (string, int) dict \<times> (int, string) dict" where
  "movie_loop [] mm rm = (mm, rm)"
| "movie_loop ((idx, movie_id) # rest) mm rm =
     movie_loop rest (AList.update movie_id (int idx) mm) (AList.update (int idx) movie_id rm)"

definition generate_mappings :: "('a \<Rightarrow> string) \<Rightarrow> 'a list \<Rightarrow> 'a list \<Rightarrow> store \<Rightarrow> store" where
  "generate_mappings py_str unique_users unique_movies st =
     (let um = user_loop (enumerate 0 (map py_str (sort_key py_str unique_users))) [];
          (mm, rm) = movie_loop (enumerate 0 (map py_str (sort_key py_str unique_movies))) [] []
      in st\<lparr>mapping_file :=
              Some \<lparr>user_mapping = um, movie_mapping = mm, reverse_movie_mapping = rm\<rparr>\<rparr>)"

text \<open>
  The states of the store that the maintenance tool reaches from \<open>s0\<close>. A command that
  raises has written nothing.
\<close>

inductive reachable :: "store \<Rightarrow> store \<Rightarrow> bool" for s0 :: store where
  start: "reachable s0 s0"
| add_user_step:
    "reachable s0 s \<Longrightarrow> add_user mongo_id user_index s = Inr (s', out) \<Longrightarrow> reachable s0 s'"
| add_bulk_step:
    "reachable s0 s \<Longrightarrow> add_bulk mongo_ids start_index s = Inr (s', out) \<Longrightarrow> reachable s0 s'"

section \<open>Data for the examples\<close>

text \<open>
  A model of one user and three items whose first two items have the same embedding, a
  serving state whose reverse mapping has no entry for item index 1, and a mapping file
  of five users.
\<close>

definition demo_model :: lightgcn where
  "demo_model =
     \<lparr>num_users = 1, num_items = 3, embedding_dim = 2, n_layers = 3,
      use_layer_attention = False, user_embedding = [ [1, 0] ],
      item_embedding = [ [1, 0], [1, 0], [0, 1] ], layer_attention = None, Graph = None,
      cached_users = None, cached_items = None, cache_valid = False\<rparr>"

definition demo_state :: "model_object option \<Rightarrow> app_state" where
  "demo_state mo =
     \<lparr>user_mapping = [(''u0'', 0)],
      movie_mapping = [(''m0'', 0), (''m2'', 2)],
      reverse_movie_mapping = [(0, ''m0''), (2, ''m2'')],
      model = mo\<rparr>"

definition demo_store :: store where
  "demo_store =
     \<lparr>mapping_file =
        Some \<lparr>user_mapping = [(''u0'', 0), (''u1'', 1), (''u2'', 2), (''u3'', 3), (''u4'', 4)],
              movie_mapping = [(''m0'', 0)], reverse_movie_mapping = [(0, ''m0'')]\<rparr>,
      backup_file = None\<rparr>"

section \<open>Facts about the Python values and the loops\<close>

lemma py_max_Max: "xs \<noteq> [] \<Longrightarrow> py_max xs = Inr (Max (set xs))"
proof (cases xs)
  case Nil
  assume "xs \<noteq> []"
  with Nil show ?thesis by simp
next
  case (Cons a list)
  show ?thesis unfolding Cons using Max.set_eq_fold [of a list] by simp
qed

lemma collect_filter:
  "collect rm scores idxs =
     map (\<lambda>i. \<lparr>movieId = the (map_of rm (int i)), score = scores ! i\<rparr>)
         (filter (\<lambda>i. case map_of rm (int i) of None \<Rightarrow> False | Some s \<Rightarrow> s \<noteq> []) idxs)"
  by (induction idxs) (auto split: option.splits)




lemma sorted_wrt_py_slice_to: "sorted_wrt P xs \<Longrightarrow> sorted_wrt P (py_slice_to k xs)"
  by (simp add: py_slice_to_def sorted_wrt_take)


lemma top_indices_descending:
  assumes "is_argsort scores (argsort scores)"
  shows "sorted_wrt (\<lambda>i j. scores ! i \<ge> scores ! j) (top_indices argsort scores k)"
proof -
  from assms have "sorted_wrt (\<lambda>i j. scores ! i \<le> scores ! j) (argsort scores)"
    by (simp add: is_argsort_def sorted_map)
  then have "sorted_wrt (\<lambda>i j. scores ! i \<ge> scores ! j) (rev (argsort scores))"
    by (simp add: sorted_wrt_rev)
  then show ?thesis
    unfolding top_indices_def by (rule sorted_wrt_py_slice_to)
qed

lemma collect_descending:
  assumes "sorted_wrt (\<lambda>i j. scores ! i \<ge> scores ! j) idxs"
  shows "sorted_wrt (\<lambda>a b. score a \<ge> score b) (collect rm scores idxs)"
  using assms by (simp add: collect_filter sorted_wrt_map sorted_wrt_filter)

lemma stable_argsort_ok: "is_argsort scores (stable_argsort scores)"
  by (simp add: is_argsort_def stable_argsort_def)

lemma demo_scores: "stable_argsort [1, 1, 0] = [2, 0, 1]"
  by (simp add: stable_argsort_def upt_rec)


lemma length_update_new: "map_of um k = None \<Longrightarrow> length (AList.update k v um) = Suc (length um)"
  by (induction um) (auto split: if_splits)

lemma add_bulk_loop_keeps:
  "add_bulk_loop start items um out = Inr (um', out') \<Longrightarrow> map_of um k = Some v
     \<Longrightarrow> map_of um' k = Some v"
proof (induction start items um out rule: add_bulk_loop.induct)
  case (1 start_index um out)
  then show ?case by simp
next
  case (2 start_index i mongo_id rest um out)
  show ?case
  proof (cases "map_of um mongo_id = None")
    case True
    with "2.prems" obtain idx where
      idx: "py_mod (start_index + int i) (int (length um)) = Inr idx"
      and rest: "add_bulk_loop start_index rest (AList.update mongo_id idx um)
                   (out @ [Added mongo_id idx]) = Inr (um', out')"
      by (auto split: sum.splits)
    from True "2.prems"(2) have "k \<noteq> mongo_id" by auto
    with "2.prems"(2) have "map_of (AList.update mongo_id idx um) k = Some v"
      by (simp add: update_conv')
    with "2.IH"(1) [OF True idx rest] show ?thesis .
  next
    case False
    with "2.prems" "2.IH"(2) show ?thesis by auto
  qed
qed

lemma card_step_new:
  assumes "x \<notin> K" and "finite S"
  shows "card (insert x S - K) = Suc (card (S - insert x K))"
proof -
  have "insert x S - K = insert x (S - insert x K)" using assms by auto
  moreover have "x \<notin> S - insert x K" by simp
  moreover have "finite (S - insert x K)" using assms by simp
  ultimately show ?thesis by simp
qed

lemma add_bulk_loop_index:
  "add_bulk_loop start (enumerate n xs) um out = Inr (um', out') \<Longrightarrow> j < length xs
     \<Longrightarrow> map_of um (xs ! j) = None \<Longrightarrow> xs ! j \<notin> set (take j xs)
     \<Longrightarrow> map_of um' (xs ! j) =
           Some ((start + int (n + j))
                   mod int (length um + card (set (take j xs) - fst ` set um)))"
proof (induction xs arbitrary: n um out j)
  case Nil
  then show ?case by simp
next
  case (Cons x xs)
  show ?case
  proof (cases j)
    case 0
    with Cons.prems have new: "map_of um x = None" by simp
    with Cons.prems(1) obtain idx where
      idx: "py_mod (start + int n) (int (length um)) = Inr idx"
      and rest: "add_bulk_loop start (enumerate (Suc n) xs) (AList.update x idx um)
                   (out @ [Added x idx]) = Inr (um', out')"
      by (auto split: sum.splits)
    from idx have "idx = (start + int n) mod int (length um)"
      by (auto simp: py_mod_def split: if_splits)
    moreover have "map_of um' x = Some idx"
      using add_bulk_loop_keeps [OF rest, of x idx] by (simp add: update_conv')
    ultimately show ?thesis using 0 by simp
  next
    case (Suc j')
    with Cons.prems have j': "j' < length xs" and new: "map_of um (xs ! j') = None"
      and ne: "xs ! j' \<noteq> x" and fresh: "xs ! j' \<notin> set (take j' xs)"
      by auto
    show ?thesis
    proof (cases "map_of um x = None")
      case True
      with Cons.prems(1) obtain idx where
        rest: "add_bulk_loop start (enumerate (Suc n) xs) (AList.update x idx um)
                   (out @ [Added x idx]) = Inr (um', out')"
        by (auto split: sum.splits)
      have new': "map_of (AList.update x idx um) (xs ! j') = None"
        using new ne by (simp add: update_conv')
      have xk: "x \<notin> fst ` set um" using True by (simp add: map_of_eq_None_iff)
      have "length (AList.update x idx um)
              + card (set (take j' xs) - fst ` set (AList.update x idx um))
            = length um + card (set (take (Suc j') (x # xs)) - fst ` set um)"
        using card_step_new [OF xk, of "set (take j' xs)"]
        by (simp add: length_update_new [OF True] dom_update)
      with Cons.IH [OF rest j' new' fresh] show ?thesis using Suc by simp
    next
      case False
      with Cons.prems(1) have
        rest: "add_bulk_loop start (enumerate (Suc n) xs) um (out @ [Skipped x])
                 = Inr (um', out')"
        by auto
      from False have "x \<in> fst ` set um" by (simp add: map_of_eq_None_iff)
      then have "set (take (Suc j') (x # xs)) - fst ` set um
           = set (take j' xs) - fst ` set um" by auto
      with Cons.IH [OF rest j' new fresh] show ?thesis using Suc by simp
    qed
  qed
qed

lemma add_bulk_loop_total:
  "um \<noteq> [] \<Longrightarrow> \<exists>r. add_bulk_loop start items um out = Inr r"
proof (induction start items um out rule: add_bulk_loop.induct)
  case (1 start_index um out)
  then show ?case by simp
next
  case (2 start_index i mongo_id rest um out)
  then show ?case by (auto simp: py_mod_def)
qed

lemma build_forward:
  "movie_loop (enumerate n ss) mm rm = (mm', rm')
     \<Longrightarrow> \<forall>e i. map_of mm e = Some i \<longrightarrow> map_of rm i = Some e
     \<Longrightarrow> \<forall>i \<in> fst ` set rm. i < int n
     \<Longrightarrow> \<forall>e i. map_of mm' e = Some i \<longrightarrow> map_of rm' i = Some e"
proof (induction ss arbitrary: n mm rm)
  case Nil
  then show ?case by simp
next
  case (Cons s ss)
  let ?mm = "AList.update s (int n) mm" and ?rm = "AList.update (int n) s rm"
  from Cons.prems(1) have run: "movie_loop (enumerate (Suc n) ss) ?mm ?rm = (mm', rm')"
    by simp
  have inv: "\<forall>e i. map_of ?mm e = Some i \<longrightarrow> map_of ?rm i = Some e"
  proof (intro allI impI)
    fix e i assume h: "map_of ?mm e = Some i"
    show "map_of ?rm i = Some e"
    proof (cases "e = s")
      case True
      with h show ?thesis by (simp add: update_conv')
    next
      case False
      with h have old: "map_of mm e = Some i" by (simp add: update_conv')
      with Cons.prems(2) have r: "map_of rm i = Some e" by blast
      from map_of_SomeD [OF r] have "i \<in> fst ` set rm" by force
      with Cons.prems(3) have "i \<noteq> int n" by auto
      with r show ?thesis by (simp add: update_conv')
    qed
  qed
  have bound: "\<forall>i \<in> fst ` set ?rm. i < int (Suc n)"
    using Cons.prems(3) by (auto simp: dom_update)
  from Cons.IH [OF run inv bound] show ?case .
qed

lemma build_backward:
  "movie_loop (enumerate n ss) mm rm = (mm', rm')
     \<Longrightarrow> distinct ss \<Longrightarrow> fst ` set mm \<inter> set ss = {}
     \<Longrightarrow> \<forall>i e. map_of rm i = Some e \<longrightarrow> map_of mm e = Some i
     \<Longrightarrow> \<forall>i e. map_of rm' i = Some e \<longrightarrow> map_of mm' e = Some i"
proof (induction ss arbitrary: n mm rm)
  case Nil
  then show ?case by simp
next
  case (Cons s ss)
  let ?mm = "AList.update s (int n) mm" and ?rm = "AList.update (int n) s rm"
  from Cons.prems(1) have run: "movie_loop (enumerate (Suc n) ss) ?mm ?rm = (mm', rm')"
    by simp
  from Cons.prems(3) have snew: "map_of mm s = None"
    by (simp add: map_of_eq_None_iff)
  have inv: "\<forall>i e. map_of ?rm i = Some e \<longrightarrow> map_of ?mm e = Some i"
  proof (intro allI impI)
    fix i e assume h: "map_of ?rm i = Some e"
    show "map_of ?mm e = Some i"
    proof (cases "i = int n")
      case True
      with h show ?thesis by (simp add: update_conv')
    next
      case False
      with h have "map_of rm i = Some e" by (simp add: update_conv')
      with Cons.prems(4) have old: "map_of mm e = Some i" by blast
      with snew have "e \<noteq> s" by auto
      with old show ?thesis by (simp add: update_conv')
    qed
  qed
  have disj: "fst ` set ?mm \<inter> set ss = {}"
    using Cons.prems(2,3) by (auto simp: dom_update)
  from Cons.prems(2) have "distinct ss" by simp
  from Cons.IH [OF run this disj inv] show ?case .
qed

lemma build_distinct:
  "movie_loop items mm rm = (mm', rm') \<Longrightarrow> distinct (map fst rm)
     \<Longrightarrow> distinct (map fst rm')"
proof (induction items mm rm rule: movie_loop.induct)
  case (1 mm rm)
  then show ?case by simp
next
  case (2 idx movie_id rest mm rm)
  then show ?case by (simp add: distinct_update)
qed
lemma add_user_keeps_movies:
  assumes "add_user mongo_id user_index s = Inr (s', out)"
  shows "\<exists>m m'. mapping_file s = Some m \<and> mapping_file s' = Some m'
           \<and> movie_mapping m' = movie_mapping m
           \<and> reverse_movie_mapping m' = reverse_movie_mapping m"
proof (cases "mapping_file s")
  case None
  with assms show ?thesis by (simp add: add_user_def load_mappings_def)
next
  case (Some m)
  show ?thesis
  proof (cases "map_of (user_mapping m) mongo_id")
    case (Some i)
    with \<open>mapping_file s = Some m\<close> assms show ?thesis
      by (simp add: add_user_def load_mappings_def)
  next
    case None
    show ?thesis
    proof (cases "py_max (map snd (user_mapping m))")
      case (Inl e)
      with None \<open>mapping_file s = Some m\<close> assms show ?thesis
        by (simp add: add_user_def load_mappings_def)
    next
      case (Inr max_index)
      with None \<open>mapping_file s = Some m\<close> assms show ?thesis
        by (cases "user_index > max_index")
           (auto simp: add_user_def load_mappings_def save_mappings_def)
    qed
  qed
qed

lemma add_bulk_keeps_movies:
  assumes "add_bulk mongo_ids start_index s = Inr (s', out)"
  shows "\<exists>m m'. mapping_file s = Some m \<and> mapping_file s' = Some m'
           \<and> movie_mapping m' = movie_mapping m
           \<and> reverse_movie_mapping m' = reverse_movie_mapping m"
proof (cases "mapping_file s")
  case None
  with assms show ?thesis by (simp add: add_bulk_def load_mappings_def)
next
  case (Some m)
  show ?thesis
  proof (cases "add_bulk_loop start_index (enumerate 0 mongo_ids) (user_mapping m) []")
    case (Inl e)
    with Some assms show ?thesis by (simp add: add_bulk_def load_mappings_def)
  next
    case (Inr r)
    obtain um out' where "r = (um, out')" by (cases r)
    with Inr Some assms show ?thesis
      by (auto simp: add_bulk_def load_mappings_def save_mappings_def)
  qed
qed

lemma reachable_keeps_movies:
  assumes "reachable s0 s" and "mapping_file s0 = Some m0"
  shows "\<exists>m. mapping_file s = Some m \<and> movie_mapping m = movie_mapping m0
           \<and> reverse_movie_mapping m = reverse_movie_mapping m0"
  using assms
proof (induction rule: reachable.induct)
  case start
  then show ?case by simp
next
  case (add_user_step s mongo_id user_index s' out)
  with add_user_keeps_movies [OF add_user_step.hyps(2)] show ?case by auto
next
  case (add_bulk_step s mongo_ids start_index s' out)
  with add_bulk_keeps_movies [OF add_bulk_step.hyps(2)] show ?case by auto
qed


lemma gen_eval:
  "generate_mappings id [''ub'', ''ua''] [''y'', ''x''] \<lparr>mapping_file = None, backup_file = None\<rparr>
   = \<lparr>mapping_file = Some \<lparr>user_mapping = [(''ua'', 0), (''ub'', 1)],
         movie_mapping = [(''x'', 0), (''y'', 1)],
         reverse_movie_mapping = [(0, ''x''), (1, ''y'')]\<rparr>, backup_file = None\<rparr>"
  by (simp add: generate_mappings_def enumerate_eq_zip upt_rec less_eq_char_def)

section \<open>The final embeddings without a propagation graph\<close>

text \<open>
  C4. A model with no propagation graph: \<open>computer\<close> returns the raw user and item
  embedding tables, whatever \<open>n_layers\<close> (and every other field) is.
\<close>

theorem computer_no_graph:
  "Graph m = None \<Longrightarrow> computer (m\<lparr>n_layers := n\<rparr>) = Inr (user_embedding m, item_embedding m)"
  by (simp add: computer_def)

theorem computer_no_graph_witness:
  "Graph \<lparr>num_users = 1, num_items = 2, embedding_dim = 2, n_layers = 3,
      use_layer_attention = False, user_embedding = [ [1, 0] ],
      item_embedding = [ [1, 0], [0, 1] ], layer_attention = None, Graph = None,
      cached_users = None, cached_items = None, cache_valid = False\<rparr> = None
   \<and> computer \<lparr>num_users = 1, num_items = 2, embedding_dim = 2, n_layers = 7,
      use_layer_attention = False, user_embedding = [ [1, 0] ],
      item_embedding = [ [1, 0], [0, 1] ], layer_attention = None, Graph = None,
      cached_users = None, cached_items = None, cache_valid = False\<rparr>
     = Inr ([ [1, 0] ], [ [1, 0], [0, 1] ])"
  using computer_no_graph [of "\<lparr>num_users = 1, num_items = 2, embedding_dim = 2, n_layers = 3,
      use_layer_attention = False, user_embedding = [ [1, 0] ],
      item_embedding = [ [1, 0], [0, 1] ], layer_attention = None, Graph = None,
      cached_users = None, cached_items = None, cache_valid = False\<rparr>" 7]
  by simp

section \<open>The recommend operation\<close>

text \<open>
  C10. The check \<open>model is None\<close> comes first: with no model loaded, every request,
  and so every request whose \<open>user_id\<close> is not in \<open>user_mapping\<close>, ends in the
  \<open>HTTPException\<close> of status 500 "Model not loaded"; the cold-start result is not
  returned and the state is not changed.
\<close>

theorem recommend_model_not_loaded:
  "model st = None \<Longrightarrow>
   get_recommendations argsort st request = (Inl (HTTPException 500 Model_not_loaded), st)"
  by (simp add: get_recommendations_def)

theorem recommend_model_not_loaded_witness:
  "model (demo_state None) = None
   \<and> map_of (user_mapping (demo_state None)) ''u1'' = None
   \<and> get_recommendations stable_argsort (demo_state None) \<lparr>req_user_id = ''u1'', top_k = 10\<rparr>
       = (Inl (HTTPException 500 Model_not_loaded), demo_state None)"
  using recommend_model_not_loaded [of "demo_state None" stable_argsort
      "\<lparr>req_user_id = ''u1'', top_k = 10\<rparr>"]
  by (simp add: demo_state_def)

text \<open>
  C1, as the code has it. With a model loaded and the requested \<open>user_id\<close> not in
  \<open>user_mapping\<close>, the operation returns a response and no error; its list of
  recommendations is empty, and its \<open>user_id\<close> field is the literal \<open>"unknown"\<close>
  that \<open>get_popular_movies\<close> writes, which is never told the requested identifier.
\<close>

theorem cold_start_response:
  "model st = Some m \<Longrightarrow> map_of (user_mapping st) (req_user_id request) = None \<Longrightarrow>
   get_recommendations argsort st request =
     (Inr \<lparr>user_id = ''unknown'', recommendations = []\<rparr>, st)"
  by (simp add: get_recommendations_def get_popular_movies_def)

theorem cold_start_response_witness:
  "model (demo_state (Some (Model demo_model))) = Some (Model demo_model)
   \<and> map_of (user_mapping (demo_state (Some (Model demo_model)))) ''u1'' = None
   \<and> get_recommendations stable_argsort (demo_state (Some (Model demo_model)))
        \<lparr>req_user_id = ''u1'', top_k = 10\<rparr>
       = (Inr \<lparr>user_id = ''unknown'', recommendations = []\<rparr>, demo_state (Some (Model demo_model)))"
  using cold_start_response [of "demo_state (Some (Model demo_model))" "Model demo_model"
      "\<lparr>req_user_id = ''u1'', top_k = 10\<rparr>" stable_argsort]
  by (simp add: demo_state_def)

text \<open>
  The request for \<open>"u1"\<close>, which is not in the mapping: the response carries
  \<open>"unknown"\<close>, so it is not \<open>{user_id: "u1", recommendations: []}\<close>.
\<close>

theorem cold_start_user_id_counterexample:
  "model (demo_state (Some (Model demo_model))) \<noteq> None
   \<and> map_of (user_mapping (demo_state (Some (Model demo_model)))) ''u1'' = None
   \<and> fst (get_recommendations stable_argsort (demo_state (Some (Model demo_model)))
            \<lparr>req_user_id = ''u1'', top_k = 10\<rparr>)
       = Inr \<lparr>user_id = ''unknown'', recommendations = []\<rparr>
   \<and> fst (get_recommendations stable_argsort (demo_state (Some (Model demo_model)))
            \<lparr>req_user_id = ''u1'', top_k = 10\<rparr>)
       \<noteq> Inr \<lparr>user_id = ''u1'', recommendations = []\<rparr>"
  by (simp add: get_recommendations_def get_popular_movies_def demo_state_def)

section \<open>The scorer\<close>

text \<open>
  C5, as the code has it. For a user vector and an item table of one width, and any
  \<open>argsort\<close> that keeps NumPy's contract, the scorer returns a list whose scores never
  increase from one entry to the next. Equal scores may follow each other; the code adds
  no tie-break to the order \<open>argsort\<close> gives, reversed.
\<close>

theorem scorer_descending:
  assumes "\<forall>row \<in> set items. length row = length user_emb"
    and "is_argsort (map (\<lambda>row. sum_list (map2 (*) user_emb row)) items)
           (argsort (map (\<lambda>row. sum_list (map2 (*) user_emb row)) items))"
  shows "\<exists>recs. scorer argsort rm user_emb (Some items) k = Inr recs
           \<and> sorted_wrt (\<lambda>a b. score a \<ge> score b) recs"
  using assms
  by (simp add: scorer_def matmul_def collect_descending top_indices_descending)

theorem scorer_descending_witness:
  "is_argsort [1, 1, 0] (stable_argsort [1, 1, 0])
   \<and> (\<exists>recs. scorer stable_argsort [(0, ''m0''), (1, ''m1''), (2, ''m2'')] [1, 0]
                 (Some [ [1, 0], [1, 0], [0, 1] ]) 3 = Inr recs
              \<and> sorted_wrt (\<lambda>a b. score a \<ge> score b) recs)"
  using scorer_descending [of "[ [1, 0], [1, 0], [0, 1] ]" "[1, 0]" stable_argsort
      "[(0, ''m0''), (1, ''m1''), (2, ''m2'')]" 3]
  by (simp add: stable_argsort_ok)

text \<open>
  Two items with the same embedding get the same score, so the list is not strictly
  descending, whichever of the two orders \<open>argsort\<close> gives the tie; with the order of a
  stable sort, the reversal lists item 1 before item 0.
\<close>

theorem scorer_order_counterexample:
  "scorer stable_argsort [(0, ''m0''), (1, ''m1''), (2, ''m2'')] [1, 0]
      (Some [ [1, 0], [1, 0], [0, 1] ]) 3
     = Inr [\<lparr>movieId = ''m1'', score = 1\<rparr>, \<lparr>movieId = ''m0'', score = 1\<rparr>,
            \<lparr>movieId = ''m2'', score = 0\<rparr>]
   \<and> \<not> sorted_wrt (\<lambda>a b. score a > score b)
         [\<lparr>movieId = ''m1'', score = 1\<rparr>, \<lparr>movieId = ''m0'', score = 1\<rparr>,
          \<lparr>movieId = ''m2'', score = 0\<rparr>]
   \<and> is_argsort [1, 1, 0] [2, 1, 0]
   \<and> scorer (\<lambda>s. [2, 1, 0]) [(0, ''m0''), (1, ''m1''), (2, ''m2'')] [1, 0]
      (Some [ [1, 0], [1, 0], [0, 1] ]) 3
     = Inr [\<lparr>movieId = ''m0'', score = 1\<rparr>, \<lparr>movieId = ''m1'', score = 1\<rparr>,
            \<lparr>movieId = ''m2'', score = 0\<rparr>]
   \<and> \<not> sorted_wrt (\<lambda>a b. score a > score b)
         [\<lparr>movieId = ''m0'', score = 1\<rparr>, \<lparr>movieId = ''m1'', score = 1\<rparr>,
          \<lparr>movieId = ''m2'', score = 0\<rparr>]"
proof -
  have "set [2, 1, 0::nat] = {0..<length [1, 1, 0::real]}" by auto
  then have "is_argsort [1, 1, 0] [2, 1, 0]"
    unfolding is_argsort_def by simp
  then show ?thesis
    by (simp add: scorer_def matmul_def top_indices_def demo_scores py_slice_to_def)
qed




section \<open>The mapping maintenance tool\<close>

text \<open>
  C8. \<open>add_user\<close> with an identifier that is already in \<open>user_mapping\<close>: whatever
  index is asked for, it prints the warning and returns before anything is changed or
  saved, so the mapping file and its backup are as before.
\<close>

theorem add_user_existing_noop:
  "mapping_file st = Some m \<Longrightarrow> map_of (user_mapping m) mongo_id = Some i \<Longrightarrow>
   add_user mongo_id user_index st = Inr (st, [Warn_exists mongo_id i])"
  by (simp add: add_user_def load_mappings_def)

theorem add_user_existing_noop_witness:
  "mapping_file demo_store = Some (the (mapping_file demo_store))
   \<and> map_of (user_mapping (the (mapping_file demo_store))) ''u3'' = Some 3
   \<and> add_user ''u3'' 0 demo_store = Inr (demo_store, [Warn_exists ''u3'' 3])"
  using add_user_existing_noop [of demo_store "the (mapping_file demo_store)" "''u3''" 3 0]
  by (simp add: demo_store_def)

text \<open>
  C9. \<open>add_user\<close> with a new identifier on a non-empty \<open>user_mapping\<close>: the
  identifier is stored with the requested index, or with the largest index of the
  mapping when the requested one is larger; the call is not rejected. The old file
  becomes the backup.
\<close>

theorem add_user_clamps_index:
  assumes "mapping_file st = Some m" and "user_mapping m \<noteq> []"
    and "map_of (user_mapping m) mongo_id = None"
  shows "\<exists>out. add_user mongo_id user_index st =
     Inr (st\<lparr>backup_file := Some m,
             mapping_file := Some (m\<lparr>user_mapping :=
               AList.update mongo_id
                 (if user_index > Max (snd ` set (user_mapping m))
                  then Max (snd ` set (user_mapping m)) else user_index)
                 (user_mapping m)\<rparr>)\<rparr>, out)"
  using assms
  by (simp add: add_user_def load_mappings_def py_max_Max save_mappings_def)

theorem add_user_clamps_index_witness:
  "mapping_file demo_store = Some (the (mapping_file demo_store))
   \<and> user_mapping (the (mapping_file demo_store)) \<noteq> []
   \<and> map_of (user_mapping (the (mapping_file demo_store))) ''new'' = None
   \<and> (\<exists>out. add_user ''new'' 9 demo_store =
         Inr (\<lparr>mapping_file =
                 Some \<lparr>user_mapping = [(''u0'', 0), (''u1'', 1), (''u2'', 2), (''u3'', 3),
                                       (''u4'', 4), (''new'', 4)],
                       movie_mapping = [(''m0'', 0)], reverse_movie_mapping = [(0, ''m0'')]\<rparr>,
               backup_file = mapping_file demo_store\<rparr>, out))"
  using add_user_clamps_index [of demo_store "the (mapping_file demo_store)" "''new''" 9]
  by (simp add: demo_store_def)

text \<open>
  C7. \<open>add_bulk\<close> on a non-empty \<open>user_mapping\<close>: the identifier at position \<open>j\<close>
  of the list, when it is new (not in the mapping, not earlier in the list), is stored
  with the index \<open>(start_index + j) mod n\<close>, where \<open>n\<close> is the number of users at that
  moment: those of the file and the new identifiers before position \<open>j\<close>. Identifiers
  already present are skipped. For a mapping of five users, \<open>start_index = 0\<close> and the
  new identifiers \<open>a, b, c\<close> the indices are 0, 1, 2.
\<close>

theorem add_bulk_assigns:
  assumes f: "mapping_file st = Some m" and ne: "user_mapping m \<noteq> []"
    and j: "j < length mongo_ids"
    and new: "map_of (user_mapping m) (mongo_ids ! j) = None"
    and fresh: "mongo_ids ! j \<notin> set (take j mongo_ids)"
  shows "\<exists>st' out m'. add_bulk mongo_ids start_index st = Inr (st', out)
           \<and> mapping_file st' = Some m'
           \<and> map_of (user_mapping m') (mongo_ids ! j) =
               Some ((start_index + int j)
                       mod int (length (user_mapping m)
                                + card (set (take j mongo_ids) - fst ` set (user_mapping m))))"
proof -
  from add_bulk_loop_total [OF ne] obtain um out where
    loop: "add_bulk_loop start_index (enumerate 0 mongo_ids) (user_mapping m) [] = Inr (um, out)"
    by fastforce
  from add_bulk_loop_index [OF loop j new fresh]
  show ?thesis
    by (simp add: add_bulk_def load_mappings_def f loop save_mappings_def)
qed

theorem add_bulk_assigns_witness:
  "mapping_file demo_store = Some (the (mapping_file demo_store))
   \<and> length (user_mapping (the (mapping_file demo_store))) = 5
   \<and> map_of (user_mapping (the (mapping_file demo_store))) ''c'' = None
   \<and> ''c'' \<notin> set (take 2 [''a'', ''b'', ''c''])
   \<and> (\<exists>st' out m'. add_bulk [''a'', ''b'', ''c''] 0 demo_store = Inr (st', out)
          \<and> mapping_file st' = Some m'
          \<and> map_of (user_mapping m') ''c'' = Some 2)
   \<and> add_bulk [''a'', ''b'', ''c''] 0 demo_store =
       Inr (\<lparr>mapping_file =
               Some \<lparr>user_mapping = [(''u0'', 0), (''u1'', 1), (''u2'', 2), (''u3'', 3),
                      (''u4'', 4), (''a'', 0), (''b'', 1), (''c'', 2)],
                     movie_mapping = [(''m0'', 0)], reverse_movie_mapping = [(0, ''m0'')]\<rparr>,
             backup_file = mapping_file demo_store\<rparr>,
            [Added ''a'' 0, Added ''b'' 1, Added ''c'' 2, Saved])"
proof -
  let ?m = "the (mapping_file demo_store)"
  have h1: "mapping_file demo_store = Some ?m" by (simp add: demo_store_def)
  have h2: "user_mapping ?m \<noteq> []" by (simp add: demo_store_def)
  have h3: "2 < length [''a'', ''b'', ''c'']" by simp
  have h4: "map_of (user_mapping ?m) ([''a'', ''b'', ''c''] ! 2) = None"
    by (simp add: demo_store_def)
  have h5: "[''a'', ''b'', ''c''] ! 2 \<notin> set (take 2 [''a'', ''b'', ''c''])" by simp
  have c: "card (set (take 2 [''a'', ''b'', ''c'']) - fst ` set (user_mapping ?m)) = 2"
    by (simp add: demo_store_def)
  have l: "length (user_mapping ?m) = 5" by (simp add: demo_store_def)
  from add_bulk_assigns [OF h1 h2 h3 h4 h5, of 0]
  have "\<exists>st' out m'. add_bulk [''a'', ''b'', ''c''] 0 demo_store = Inr (st', out)
          \<and> mapping_file st' = Some m'
          \<and> map_of (user_mapping m') ''c'' = Some 2"
    unfolding c l by simp
  moreover have "add_bulk [''a'', ''b'', ''c''] 0 demo_store =
       Inr (\<lparr>mapping_file =
               Some \<lparr>user_mapping = [(''u0'', 0), (''u1'', 1), (''u2'', 2), (''u3'', 3),
                      (''u4'', 4), (''a'', 0), (''b'', 1), (''c'', 2)],
                     movie_mapping = [(''m0'', 0)], reverse_movie_mapping = [(0, ''m0'')]\<rparr>,
             backup_file = mapping_file demo_store\<rparr>,
            [Added ''a'' 0, Added ''b'' 1, Added ''c'' 2, Saved])"
    by (simp add: add_bulk_def load_mappings_def demo_store_def py_mod_def save_mappings_def
          enumerate_eq_zip upt_rec)
  ultimately show ?thesis using h4 l by (simp add: demo_store_def)
qed

section \<open>The generated mapping and the states reached from it\<close>

text \<open>
  C3. In every state of the store reached from a generated mapping by \<open>add_user\<close>
  and \<open>add_bulk\<close>: every pair \<open>(ext_id, idx)\<close> of \<open>movie_mapping\<close> has
  \<open>reverse_movie_mapping[idx] = ext_id\<close>; no index has two reverse entries; and, when
  \<open>str\<close> gives different identifiers different strings, every reverse entry is the
  inverse of a pair of \<open>movie_mapping\<close>, so the two are exact inverses.
\<close>

theorem mapping_inverse_invariant:
  assumes "reachable (generate_mappings py_str unique_users unique_movies st0) s"
  shows "\<exists>m. mapping_file s = Some m
           \<and> (\<forall>ext_id idx. map_of (movie_mapping m) ext_id = Some idx
                 \<longrightarrow> map_of (reverse_movie_mapping m) idx = Some ext_id)
           \<and> distinct (map fst (reverse_movie_mapping m))
           \<and> (distinct (map py_str unique_movies)
                 \<longrightarrow> (\<forall>idx ext_id. map_of (reverse_movie_mapping m) idx = Some ext_id
                        \<longrightarrow> map_of (movie_mapping m) ext_id = Some idx))"
proof -
  let ?ss = "map py_str (sort_key py_str unique_movies)"
  obtain mm rm where b: "movie_loop (enumerate 0 ?ss) [] [] = (mm, rm)"
    by (cases "movie_loop (enumerate 0 ?ss) [] []")
  let ?m0 = "\<lparr>user_mapping =
                user_loop (enumerate 0 (map py_str (sort_key py_str unique_users))) [],
              movie_mapping = mm, reverse_movie_mapping = rm\<rparr>"
  have f0: "mapping_file (generate_mappings py_str unique_users unique_movies st0) = Some ?m0"
    by (simp add: generate_mappings_def b)
  from reachable_keeps_movies [OF assms f0] obtain m where
    m: "mapping_file s = Some m" "movie_mapping m = mm" "reverse_movie_mapping m = rm"
    by auto
  have fwd: "\<forall>e i. map_of mm e = Some i \<longrightarrow> map_of rm i = Some e"
    using build_forward [OF b] by simp
  have dist: "distinct (map fst rm)"
    using build_distinct [OF b] by simp
  have bwd: "\<forall>i e. map_of rm i = Some e \<longrightarrow> map_of mm e = Some i"
    if "distinct (map py_str unique_movies)"
  proof -
    from that have "distinct ?ss" by (simp add: distinct_map)
    from build_backward [OF b this] show ?thesis by simp
  qed
  show ?thesis
  proof (intro exI conjI)
    show "mapping_file s = Some m" by (rule m(1))
    show "\<forall>ext_id idx. map_of (movie_mapping m) ext_id = Some idx
            \<longrightarrow> map_of (reverse_movie_mapping m) idx = Some ext_id"
      unfolding m(2,3) by (rule fwd)
    show "distinct (map fst (reverse_movie_mapping m))"
      unfolding m(3) by (rule dist)
    show "distinct (map py_str unique_movies)
            \<longrightarrow> (\<forall>idx ext_id. map_of (reverse_movie_mapping m) idx = Some ext_id
                   \<longrightarrow> map_of (movie_mapping m) ext_id = Some idx)"
      unfolding m(2,3) using bwd by (rule impI)
  qed
qed

theorem mapping_inverse_invariant_witness:
  "reachable
     (generate_mappings id [''ub'', ''ua''] [''y'', ''x'']
        \<lparr>mapping_file = None, backup_file = None\<rparr>)
     \<lparr>mapping_file = Some \<lparr>user_mapping = [(''ua'', 0), (''ub'', 1), (''new'', 1)],
         movie_mapping = [(''x'', 0), (''y'', 1)],
         reverse_movie_mapping = [(0, ''x''), (1, ''y'')]\<rparr>,
       backup_file = Some \<lparr>user_mapping = [(''ua'', 0), (''ub'', 1)],
         movie_mapping = [(''x'', 0), (''y'', 1)],
         reverse_movie_mapping = [(0, ''x''), (1, ''y'')]\<rparr>\<rparr>
   \<and> distinct (map id [''y'', ''x''])
   \<and> map_of [(''x'', 0), (''y'', 1::int)] ''y'' = Some 1
   \<and> map_of [(0::int, ''x''), (1, ''y'')] 1 = Some ''y''
   \<and> map_of [(0::int, ''x''), (1, ''y'')] 0 = Some ''x''
   \<and> map_of [(''x'', 0), (''y'', 1::int)] ''x'' = Some 0"
proof -
  let ?s0 = "generate_mappings id [''ub'', ''ua''] [''y'', ''x'']
        \<lparr>mapping_file = None, backup_file = None\<rparr>"
  let ?s1 = "\<lparr>mapping_file = Some \<lparr>user_mapping = [(''ua'', 0), (''ub'', 1), (''new'', 1)],
         movie_mapping = [(''x'', 0), (''y'', 1)],
         reverse_movie_mapping = [(0, ''x''), (1, ''y'')]\<rparr>,
       backup_file = Some \<lparr>user_mapping = [(''ua'', 0), (''ub'', 1)],
         movie_mapping = [(''x'', 0), (''y'', 1)],
         reverse_movie_mapping = [(0, ''x''), (1, ''y'')]\<rparr>\<rparr>"
  have step: "add_user ''new'' 7 ?s0 = Inr (?s1, [Warn_index 7 1, Saved, Added ''new'' 1])"
    by (simp add: gen_eval add_user_def load_mappings_def save_mappings_def)
  have r: "reachable ?s0 ?s1"
    by (rule reachable.add_user_step [OF reachable.start step])
  have d: "distinct (map id [''y'', ''x''])" by simp
  from mapping_inverse_invariant [OF r] obtain m where
    m: "mapping_file ?s1 = Some m"
    and fwd: "\<forall>ext_id idx. map_of (movie_mapping m) ext_id = Some idx
                \<longrightarrow> map_of (reverse_movie_mapping m) idx = Some ext_id"
    and bwd: "distinct (map id [''y'', ''x''])
                \<longrightarrow> (\<forall>idx ext_id. map_of (reverse_movie_mapping m) idx = Some ext_id
                       \<longrightarrow> map_of (movie_mapping m) ext_id = Some idx)"
    by blast
  from m have mm: "movie_mapping m = [(''x'', 0), (''y'', 1)]"
    and rm: "reverse_movie_mapping m = [(0, ''x''), (1, ''y'')]"
    by auto
  from bwd d have bwd': "\<forall>idx ext_id. map_of (reverse_movie_mapping m) idx = Some ext_id
                       \<longrightarrow> map_of (movie_mapping m) ext_id = Some idx"
    by (rule mp)
  have a: "map_of [(''x'', 0), (''y'', 1::int)] ''y'' = Some 1" by simp
  have b: "map_of [(0::int, ''x''), (1, ''y'')] 0 = Some ''x''" by simp
  from fwd [unfolded mm rm, rule_format, OF a]
  have a': "map_of [(0::int, ''x''), (1, ''y'')] 1 = Some ''y''" .
  from bwd' [unfolded mm rm, rule_format, OF b]
  have b': "map_of [(''x'', 0), (''y'', 1::int)] ''x'' = Some 0" .
  show ?thesis
    using r d a a' b b' by (intro conjI)
qed

section \<open>Reloading\<close>




end
